theory Spec2Isabelle
  imports Complex_Main "HOL-Library.Product_Lexorder"
begin

section \<open>The alarm sales calculator (alarm\_sales\_app.py)\<close>

text \<open>
  A shallow embedding of the pricing arithmetic and the plan-selection policies of
  \<^verbatim>\<open>src/alarm_sales_app.py\<close>.

  Conventions of the embedding:
  \<^item> Python \<^verbatim>\<open>int\<close> is \<^typ>\<open>int\<close>; Python \<^verbatim>\<open>float\<close> is \<^typ>\<open>real\<close>, that is, the
    arithmetic is exact and the rounding of IEEE doubles is not modelled. The implicit
    promotion of an int in a float expression is written \<^const>\<open>real_of_int\<close>.
  \<^item> Every exception the modelled code can raise is a value \<open>Inl e\<close> of the result.
  \<^item> A plan dictionary with the four keys \<^verbatim>\<open>label\<close>, \<^verbatim>\<open>months\<close>, \<^verbatim>\<open>monthly\<close>,
    \<^verbatim>\<open>total\<close> is a record.
  \<^item> A string is a list of bytes; the letter a-with-ring of the Swedish labels is its
    two UTF-8 bytes.
\<close>

subsection \<open>Constants\<close>

definition BASE_OVER_70 :: int where "BASE_OVER_70 = 30990"
definition BASE_UNDER_70 :: int where "BASE_UNDER_70 = 32400"

definition EXTRA_MAGNET :: int where "EXTRA_MAGNET = 1000"
definition EXTRA_CAMERA :: int where "EXTRA_CAMERA = 2200"
definition EXTRA_FIRE :: int where "EXTRA_FIRE = 2000"

definition START_FEE :: int where "START_FEE = 594"
definition ADMIN_MONTHLY :: int where "ADMIN_MONTHLY = 49"
definition INSTALLATION_COST :: int where "INSTALLATION_COST = 5000"

definition aa :: string where "aa = [CHR 0xC3, CHR 0xA5]"

definition PAYMENT_OPTIONS :: "(string \<times> int) list" where
  "PAYMENT_OPTIONS =
    [(''90 dagar (3 m'' @ aa @ ''n)'', 3),
     (''12 m'' @ aa @ ''nader'', 12),
     (''24 m'' @ aa @ ''nader'', 24),
     (''36 m'' @ aa @ ''nader'', 36),
     (''60 m'' @ aa @ ''nader'', 60),
     (''72 m'' @ aa @ ''nader'', 72),
     (''120 m'' @ aa @ ''nader'', 120)]"

definition BASE_COMMISSION_PER_DEAL :: int where "BASE_COMMISSION_PER_DEAL = 2500"
definition INSTALL_COMMISSION_RATE :: real where "INSTALL_COMMISSION_RATE = 20 / 100"
definition UPSELL_COMMISSION_RATE :: real where "UPSELL_COMMISSION_RATE = 10 / 100"
definition COMPENSATION_PENALTY_RATE :: real where "COMPENSATION_PENALTY_RATE = 20 / 100"
definition MILE_COMP :: real where "MILE_COMP = 2550 / 100"

subsection \<open>Exceptions and plans\<close>

datatype error = ZeroDivisionError | ValueError | IndexError | StopIteration

record plan =
  label :: string
  months :: int
  monthly :: real
  total :: real

text \<open>Python's \<^verbatim>\<open>x / m\<close> with a float (or int) \<open>x\<close> and an int \<open>m\<close>: true division, which
  raises on a zero divisor.\<close>

definition truediv :: "real \<Rightarrow> int \<Rightarrow> error + real" where
  "truediv x m = (if m = 0 then Inl ZeroDivisionError else Inr (x / real_of_int m))"

subsection \<open>compute\_plans\<close>

text \<open>The loop of \<^verbatim>\<open>compute_plans\<close> over a list of payment options; the third argument
  is the list \<^verbatim>\<open>plans\<close> built so far, to which each round appends one plan.\<close>

fun compute_plans_loop :: "(string \<times> int) list \<Rightarrow> real \<Rightarrow> plan list \<Rightarrow> error + plan list" where
  "compute_plans_loop [] financed_amount plans = Inr plans"
| "compute_plans_loop ((lbl, mths) # rest) financed_amount plans =
     (case truediv financed_amount mths of
        Inl e \<Rightarrow> Inl e
      | Inr monthly_fin \<Rightarrow>
          (let monthly_total = monthly_fin + real_of_int ADMIN_MONTHLY;
               total_cost = monthly_total * real_of_int mths + real_of_int START_FEE
           in compute_plans_loop rest financed_amount
                (plans @ [\<lparr>label = lbl, months = mths,
                           monthly = monthly_total, total = total_cost\<rparr>])))"

definition compute_plans :: "real \<Rightarrow> error + plan list" where
  "compute_plans financed_amount = compute_plans_loop PAYMENT_OPTIONS financed_amount []"

subsection \<open>Python's max and min with a key\<close>

text \<open>\<^verbatim>\<open>max(xs, key=k)\<close> walks the sequence and replaces the running best only by an
  item whose key is strictly greater, so the first maximal item wins; \<^verbatim>\<open>min\<close> is
  symmetric. Both raise \<^verbatim>\<open>ValueError\<close> on an empty sequence.\<close>

fun max_loop :: "('a \<Rightarrow> 'k::linorder) \<Rightarrow> 'a \<Rightarrow> 'a list \<Rightarrow> 'a" where
  "max_loop key best [] = best"
| "max_loop key best (x # xs) = max_loop key (if key best < key x then x else best) xs"

fun min_loop :: "('a \<Rightarrow> 'k::linorder) \<Rightarrow> 'a \<Rightarrow> 'a list \<Rightarrow> 'a" where
  "min_loop key best [] = best"
| "min_loop key best (x # xs) = min_loop key (if key x < key best then x else best) xs"

definition py_max :: "('a \<Rightarrow> 'k::linorder) \<Rightarrow> 'a list \<Rightarrow> error + 'a" where
  "py_max key xs = (case xs of [] \<Rightarrow> Inl ValueError | x # rest \<Rightarrow> Inr (max_loop key x rest))"

definition py_min :: "('a \<Rightarrow> 'k::linorder) \<Rightarrow> 'a list \<Rightarrow> error + 'a" where
  "py_min key xs = (case xs of [] \<Rightarrow> Inl ValueError | x # rest \<Rightarrow> Inr (min_loop key x rest))"

subsection \<open>choose\_best\_plan\_for\_budget\<close>

definition choose_best_plan_for_budget :: "plan list \<Rightarrow> real \<Rightarrow> error + (plan \<times> string)" where
  "choose_best_plan_for_budget plans target_monthly =
     (let under_or_equal = filter (\<lambda>p. monthly p \<le> target_monthly) plans
      in if under_or_equal \<noteq> []
         then (case py_max monthly under_or_equal of
                 Inl e \<Rightarrow> Inl e
               | Inr best \<Rightarrow> Inr (best, ''within''))
         else (case py_min monthly plans of
                 Inl e \<Rightarrow> Inl e
               | Inr best \<Rightarrow> Inr (best, ''above'')))"

subsection \<open>choose\_discount\_plan\_to\_match\_price\<close>

text \<open>\<^verbatim>\<open>candidates.sort(key=...)\<close> is a stable sort on the pair (months, distance to the
  target), compared lexicographically; \<^const>\<open>sort_key\<close> is a stable insertion sort and the
  order on pairs is the lexicographic one. \<^verbatim>\<open>candidates[0]\<close> raises \<^verbatim>\<open>IndexError\<close> on an
  empty list.\<close>

definition choose_discount_plan_to_match_price ::
    "plan list \<Rightarrow> real \<Rightarrow> real \<Rightarrow> error + (plan \<times> bool)" where
  "choose_discount_plan_to_match_price plans target_monthly tolerance =
     (let lower = target_monthly - tolerance;
          upper = target_monthly + tolerance;
          candidates = filter (\<lambda>p. lower \<le> monthly p \<and> monthly p \<le> upper) plans
      in if candidates \<noteq> []
         then (case sort_key (\<lambda>p. (months p, \<bar>monthly p - target_monthly\<bar>)) candidates of
                 [] \<Rightarrow> Inl IndexError
               | c # _ \<Rightarrow> Inr (c, True))
         else (case py_min (\<lambda>p. \<bar>monthly p - target_monthly\<bar>) plans of
                 Inl e \<Rightarrow> Inl e
               | Inr nearest \<Rightarrow> Inr (nearest, False)))"

subsection \<open>bonus\_for\_net\_sales\<close>

definition bonus_for_net_sales :: "int \<Rightarrow> int" where
  "bonus_for_net_sales net_sales =
     (if net_sales \<ge> 50 then 50000
      else if net_sales \<ge> 40 then 40000
      else if net_sales \<ge> 30 then 30000
      else if net_sales \<ge> 20 then 15000
      else if net_sales \<ge> 15 then 10000
      else if net_sales \<ge> 10 then 5000
      else 0)"

subsection \<open>The quote: financed amounts, discount section, commission\<close>

text \<open>The module-level script, one function per block. The sidebar gives the extras counts
  (integers, at least 0) and, for each extra with a positive count, a check box
  "give away all of them"; the flag \<^verbatim>\<open>charged_x\<close> is \<^verbatim>\<open>x_count > 0 and not box_x\<close>.\<close>

definition base_price :: "bool \<Rightarrow> int" where
  "base_price is_over_70 = (if is_over_70 then BASE_OVER_70 else BASE_UNDER_70)"

definition charged :: "int \<Rightarrow> bool \<Rightarrow> bool" where
  "charged count give_away = (count > 0 \<and> \<not> give_away)"

definition extras_total_full :: "int \<Rightarrow> int \<Rightarrow> int \<Rightarrow> int" where
  "extras_total_full magnet_count camera_count fire_count =
     magnet_count * EXTRA_MAGNET + camera_count * EXTRA_CAMERA + fire_count * EXTRA_FIRE"

definition extras_charged :: "int \<Rightarrow> int \<Rightarrow> int \<Rightarrow> bool \<Rightarrow> bool \<Rightarrow> bool \<Rightarrow> int" where
  "extras_charged magnet_count camera_count fire_count charged_magnet charged_camera charged_fire =
     (if charged_magnet then magnet_count * EXTRA_MAGNET else 0)
     + (if charged_camera then camera_count * EXTRA_CAMERA else 0)
     + (if charged_fire then fire_count * EXTRA_FIRE else 0)"

definition financed_full :: "int \<Rightarrow> int \<Rightarrow> int \<Rightarrow> int \<Rightarrow> int" where
  "financed_full price magnet_count camera_count fire_count =
     price + extras_total_full magnet_count camera_count fire_count + INSTALLATION_COST"

definition financed_discount :: "int \<Rightarrow> int \<Rightarrow> int \<Rightarrow> int \<Rightarrow> bool \<Rightarrow> bool \<Rightarrow> bool \<Rightarrow> int" where
  "financed_discount price magnet_count camera_count fire_count
       charged_magnet charged_camera charged_fire =
     price
     + extras_charged magnet_count camera_count fire_count charged_magnet charged_camera charged_fire
     + INSTALLATION_COST"

text \<open>\<^verbatim>\<open>next(p for p in plans_full if p["label"] == selected_term_label)\<close>\<close>

definition next_with_label :: "plan list \<Rightarrow> string \<Rightarrow> error + plan" where
  "next_with_label plans lbl =
     (case filter (\<lambda>p. label p = lbl) plans of [] \<Rightarrow> Inl StopIteration | p # _ \<Rightarrow> Inr p)"

text \<open>The condition of the discount section (an int is true when it is not 0).\<close>

definition discount_condition :: "int \<Rightarrow> int \<Rightarrow> int \<Rightarrow> bool \<Rightarrow> bool \<Rightarrow> bool \<Rightarrow> bool" where
  "discount_condition magnet_count camera_count fire_count
       charged_magnet charged_camera charged_fire =
     ((magnet_count \<noteq> 0 \<or> camera_count \<noteq> 0 \<or> fire_count \<noteq> 0)
      \<and> (\<not> charged_magnet \<or> \<not> charged_camera \<or> \<not> charged_fire))"

text \<open>The discount section: the value of \<^verbatim>\<open>discount_plan\<close> after it, \<open>None\<close> when the
  section is skipped.\<close>

definition discount_section ::
    "int \<Rightarrow> int \<Rightarrow> int \<Rightarrow> int \<Rightarrow> bool \<Rightarrow> bool \<Rightarrow> bool \<Rightarrow> real \<Rightarrow> int \<Rightarrow> error + plan option" where
  "discount_section price magnet_count camera_count fire_count
       charged_magnet charged_camera charged_fire desired_monthly tolerance =
     (if discount_condition magnet_count camera_count fire_count
            charged_magnet charged_camera charged_fire
      then (case compute_plans (real_of_int (financed_discount price magnet_count camera_count
                    fire_count charged_magnet charged_camera charged_fire)) of
              Inl e \<Rightarrow> Inl e
            | Inr plans_discount \<Rightarrow>
                (case choose_discount_plan_to_match_price plans_discount desired_monthly
                        (real_of_int tolerance) of
                   Inl e \<Rightarrow> Inl e
                 | Inr (discount_plan, within_tol) \<Rightarrow> Inr (Some discount_plan)))
      else Inr None)"

record commission =
  base_comm :: int
  upsell_comm :: real
  install_comm :: real
  total_before_comp :: real
  has_comp :: bool
  total_after_comp :: real
  comp_penalty :: real
  mile_comp_total :: real
  total_incl_miles :: real
  monthly_bonus :: int

text \<open>The commission block. \<^verbatim>\<open>total_incl_miles\<close> is the displayed expression
  \<^verbatim>\<open>total_after_comp + mile_comp_total\<close>.\<close>

definition commission_block ::
    "int \<Rightarrow> int \<Rightarrow> int \<Rightarrow> bool \<Rightarrow> bool \<Rightarrow> bool \<Rightarrow> plan option \<Rightarrow> real \<Rightarrow> int \<Rightarrow> commission" where
  "commission_block magnet_count camera_count fire_count
       charged_magnet charged_camera charged_fire discount_plan miles_driven net_sales_month =
     (let extras_charged_final =
            extras_charged magnet_count camera_count fire_count
              charged_magnet charged_camera charged_fire;
          base = BASE_COMMISSION_PER_DEAL;
          upsell = real_of_int extras_charged_final * UPSELL_COMMISSION_RATE;
          install = real_of_int INSTALLATION_COST * INSTALL_COMMISSION_RATE;
          before = real_of_int base + upsell + install;
          comp = ((magnet_count \<noteq> 0 \<and> \<not> charged_magnet)
                  \<or> (camera_count \<noteq> 0 \<and> \<not> charged_camera)
                  \<or> (fire_count \<noteq> 0 \<and> \<not> charged_fire)
                  \<or> discount_plan \<noteq> None);
          after = (if comp then before * (1 - COMPENSATION_PENALTY_RATE) else before);
          penalty = (if comp then before - after else 0);
          mile = miles_driven * MILE_COMP
      in \<lparr>base_comm = base, upsell_comm = upsell, install_comm = install,
          total_before_comp = before, has_comp = comp, total_after_comp = after,
          comp_penalty = penalty, mile_comp_total = mile,
          total_incl_miles = after + mile,
          monthly_bonus = bonus_for_net_sales net_sales_month\<rparr>)"

record inputs =
  is_over_70 :: bool
  magnet_count :: int
  camera_count :: int
  fire_count :: int
  give_magnet :: bool
  give_camera :: bool
  give_fire :: bool
  selected_term_label :: string
  desired_monthly :: real
  tolerance :: int
  net_sales_month :: int
  miles_driven :: real

record outputs =
  selected_plan_full :: plan
  best_budget_plan :: plan
  budget_status :: string
  discount_plan :: "plan option"
  offer_plan_for_calc :: plan
  comm :: commission

text \<open>One run of the script on the sidebar's values. \<^verbatim>\<open>offer_plan_for_calc\<close> is
  \<^verbatim>\<open>discount_plan or selected_plan_full\<close>; a plan dictionary has four keys and is
  therefore true, so the commission block always runs.\<close>

definition run :: "inputs \<Rightarrow> error + outputs" where
  "run i =
     (let price = base_price (is_over_70 i);
          mc = magnet_count i; cc = camera_count i; fc = fire_count i;
          charged_magnet = charged mc (give_magnet i);
          charged_camera = charged cc (give_camera i);
          charged_fire = charged fc (give_fire i)
      in case compute_plans (real_of_int (financed_full price mc cc fc)) of
           Inl e \<Rightarrow> Inl e
         | Inr plans_full \<Rightarrow>
         (case next_with_label plans_full (selected_term_label i) of
            Inl e \<Rightarrow> Inl e
          | Inr selected \<Rightarrow>
          (case choose_best_plan_for_budget plans_full (desired_monthly i) of
             Inl e \<Rightarrow> Inl e
           | Inr (best, status) \<Rightarrow>
           (case discount_section price mc cc fc charged_magnet charged_camera charged_fire
                   (desired_monthly i) (tolerance i) of
              Inl e \<Rightarrow> Inl e
            | Inr dp \<Rightarrow>
                Inr \<lparr>selected_plan_full = selected, best_budget_plan = best,
                     budget_status = status, discount_plan = dp,
                     offer_plan_for_calc = (case dp of Some d \<Rightarrow> d | None \<Rightarrow> selected),
                     comm = commission_block mc cc fc charged_magnet charged_camera charged_fire
                              dp (miles_driven i) (net_sales_month i)\<rparr>))))"

text \<open>The values the sidebar shows before the salesperson changes anything: the first
  radio button and the first entry of the select box, the \<^verbatim>\<open>value=\<close> of each number
  input and of the slider, no box ticked.\<close>

definition default_inputs :: inputs where
  "default_inputs =
     \<lparr>is_over_70 = True, magnet_count = 0, camera_count = 0, fire_count = 0,
      give_magnet = False, give_camera = False, give_fire = False,
      selected_term_label = fst (PAYMENT_OPTIONS ! 0), desired_monthly = 800,
      tolerance = 50, net_sales_month = 0, miles_driven = 0\<rparr>"

section \<open>Facts\<close>

subsection \<open>compute\_plans\<close>

lemma compute_plans_unfold:
  "compute_plans a = Inr
    [\<lparr>label = ''90 dagar (3 m'' @ aa @ ''n)'', months = 3,
      monthly = a / 3 + 49, total = (a / 3 + 49) * 3 + 594\<rparr>,
     \<lparr>label = ''12 m'' @ aa @ ''nader'', months = 12,
      monthly = a / 12 + 49, total = (a / 12 + 49) * 12 + 594\<rparr>,
     \<lparr>label = ''24 m'' @ aa @ ''nader'', months = 24,
      monthly = a / 24 + 49, total = (a / 24 + 49) * 24 + 594\<rparr>,
     \<lparr>label = ''36 m'' @ aa @ ''nader'', months = 36,
      monthly = a / 36 + 49, total = (a / 36 + 49) * 36 + 594\<rparr>,
     \<lparr>label = ''60 m'' @ aa @ ''nader'', months = 60,
      monthly = a / 60 + 49, total = (a / 60 + 49) * 60 + 594\<rparr>,
     \<lparr>label = ''72 m'' @ aa @ ''nader'', months = 72,
      monthly = a / 72 + 49, total = (a / 72 + 49) * 72 + 594\<rparr>,
     \<lparr>label = ''120 m'' @ aa @ ''nader'', months = 120,
      monthly = a / 120 + 49, total = (a / 120 + 49) * 120 + 594\<rparr>]"
  by (simp add: compute_plans_def PAYMENT_OPTIONS_def truediv_def ADMIN_MONTHLY_def
      START_FEE_def Let_def)

text \<open>The loop over an arbitrary option list: it returns exactly when no term is 0, and
  it raises as soon as one is.\<close>

lemma compute_plans_loop_returns:
  "(\<forall>(l, m) \<in> set opts. m \<noteq> 0) \<Longrightarrow> \<exists>ps. compute_plans_loop opts a acc = Inr ps"
  by (induction opts a acc rule: compute_plans_loop.induct) (auto simp: truediv_def Let_def)

lemma compute_plans_loop_raises:
  "(l, 0) \<in> set opts \<Longrightarrow> compute_plans_loop opts a acc = Inl ZeroDivisionError"
  by (induction opts a acc rule: compute_plans_loop.induct) (auto simp: truediv_def Let_def)

subsection \<open>max and min\<close>

lemma max_loop_mem: "max_loop key b xs \<in> set (b # xs)"
  by (induction xs arbitrary: b) auto

lemma max_loop_ge_best: "key b \<le> key (max_loop key b xs)"
proof (induction xs arbitrary: b)
  case Nil
  show ?case by simp
next
  case (Cons x xs)
  have "key b \<le> key (if key b < key x then x else b)" by (simp add: less_imp_le)
  also have "\<dots> \<le> key (max_loop key (if key b < key x then x else b) xs)" by (rule Cons.IH)
  finally show ?case by simp
qed

lemma max_loop_ge: "y \<in> set xs \<Longrightarrow> key y \<le> key (max_loop key b xs)"
proof (induction xs arbitrary: b)
  case Nil
  then show ?case by simp
next
  case (Cons x xs)
  show ?case
  proof (cases "y = x")
    case True
    have "key x \<le> key (if key b < key x then x else b)" by (simp add: not_less)
    also have "\<dots> \<le> key (max_loop key (if key b < key x then x else b) xs)"
      by (rule max_loop_ge_best)
    finally show ?thesis using True by simp
  next
    case False
    with Cons.prems have "y \<in> set xs" by simp
    then have "key y \<le> key (max_loop key (if key b < key x then x else b) xs)"
      by (rule Cons.IH)
    then show ?thesis by simp
  qed
qed

lemma min_loop_mem: "min_loop key b xs \<in> set (b # xs)"
  by (induction xs arbitrary: b) auto

lemma min_loop_le_best: "key (min_loop key b xs) \<le> key b"
proof (induction xs arbitrary: b)
  case Nil
  show ?case by simp
next
  case (Cons x xs)
  have "key (min_loop key (if key x < key b then x else b) xs)
          \<le> key (if key x < key b then x else b)" by (rule Cons.IH)
  also have "\<dots> \<le> key b" by (simp add: less_imp_le)
  finally show ?case by simp
qed

lemma min_loop_le: "y \<in> set xs \<Longrightarrow> key (min_loop key b xs) \<le> key y"
proof (induction xs arbitrary: b)
  case Nil
  then show ?case by simp
next
  case (Cons x xs)
  show ?case
  proof (cases "y = x")
    case True
    have "key (min_loop key (if key x < key b then x else b) xs)
            \<le> key (if key x < key b then x else b)" by (rule min_loop_le_best)
    also have "\<dots> \<le> key x" by (simp add: not_less)
    finally show ?thesis using True by simp
  next
    case False
    with Cons.prems have "y \<in> set xs" by simp
    then have "key (min_loop key (if key x < key b then x else b) xs) \<le> key y"
      by (rule Cons.IH)
    then show ?thesis by simp
  qed
qed

lemma py_max_spec:
  assumes "xs \<noteq> []"
  shows "\<exists>b. py_max key xs = Inr b \<and> b \<in> set xs \<and> (\<forall>y \<in> set xs. key y \<le> key b)"
proof -
  from assms obtain x rest where xs: "xs = x # rest" by (cases xs) auto
  show ?thesis
    unfolding xs py_max_def
    using max_loop_mem [of key x rest] max_loop_ge [of _ rest key x] max_loop_ge_best [of key x rest]
    by auto
qed

lemma py_min_spec:
  assumes "xs \<noteq> []"
  shows "\<exists>b. py_min key xs = Inr b \<and> b \<in> set xs \<and> (\<forall>y \<in> set xs. key b \<le> key y)"
proof -
  from assms obtain x rest where xs: "xs = x # rest" by (cases xs) auto
  show ?thesis
    unfolding xs py_min_def
    using min_loop_mem [of key x rest] min_loop_le [of _ rest key x] min_loop_le_best [of key x rest]
    by auto
qed

subsection \<open>The head of a sorted list\<close>

lemma sort_key_not_Nil:
  assumes "xs \<noteq> []"
  shows "sort_key f xs \<noteq> []"
proof
  assume "sort_key f xs = []"
  then have "length (sort_key f xs) = 0" by (simp only: list.size)
  then have "length xs = 0" by (simp only: length_sort)
  with assms show False by simp
qed

lemma sort_key_head:
  assumes "sort_key f xs = c # cs"
  shows "c \<in> set xs \<and> (\<forall>y \<in> set xs. f c \<le> f y)"
proof -
  have "set (sort_key f xs) = set xs" by simp
  with assms have mem: "set xs = insert c (set cs)" by simp
  have "sorted (map f (sort_key f xs))" by (rule sorted_sort_key)
  with assms have "\<forall>y \<in> set cs. f c \<le> f y" by simp
  with mem show ?thesis by auto
qed

subsection \<open>The two matchers, branch by branch\<close>

lemma budget_within:
  assumes "\<exists>p \<in> set plans. monthly p \<le> t"
  shows "\<exists>best. choose_best_plan_for_budget plans t = Inr (best, ''within'')
           \<and> best \<in> set plans \<and> monthly best \<le> t
           \<and> (\<forall>q \<in> set plans. monthly q \<le> t \<longrightarrow> monthly q \<le> monthly best)"
proof -
  let ?ue = "filter (\<lambda>p. monthly p \<le> t) plans"
  from assms have ne: "?ue \<noteq> []" by (simp add: filter_empty_conv)
  from py_max_spec [OF ne, of monthly] obtain b where
    b: "py_max monthly ?ue = Inr b" "b \<in> set ?ue" "\<forall>y \<in> set ?ue. monthly y \<le> monthly b"
    by blast
  from ne b(1) have "choose_best_plan_for_budget plans t = Inr (b, ''within'')"
    by (simp add: choose_best_plan_for_budget_def)
  moreover from b(2) have "b \<in> set plans" "monthly b \<le> t" by simp_all
  moreover from b(3) have "\<forall>q \<in> set plans. monthly q \<le> t \<longrightarrow> monthly q \<le> monthly b" by simp
  ultimately show ?thesis by blast
qed

lemma budget_above:
  assumes "plans \<noteq> []" and "\<not> (\<exists>p \<in> set plans. monthly p \<le> t)"
  shows "\<exists>best. choose_best_plan_for_budget plans t = Inr (best, ''above'')
           \<and> best \<in> set plans \<and> (\<forall>q \<in> set plans. monthly best \<le> monthly q)"
proof -
  from assms(2) have emp: "filter (\<lambda>p. monthly p \<le> t) plans = []"
    by (simp add: filter_empty_conv)
  from py_min_spec [OF assms(1), of monthly] obtain b where
    b: "py_min monthly plans = Inr b" "b \<in> set plans" "\<forall>y \<in> set plans. monthly b \<le> monthly y"
    by blast
  from emp b(1) have "choose_best_plan_for_budget plans t = Inr (b, ''above'')"
    by (simp add: choose_best_plan_for_budget_def)
  with b(2,3) show ?thesis by blast
qed

lemma budget_returns:
  assumes "plans \<noteq> []"
  shows "\<exists>r. choose_best_plan_for_budget plans t = Inr r"
proof (cases "\<exists>p \<in> set plans. monthly p \<le> t")
  case True
  from budget_within [OF True] show ?thesis by blast
next
  case False
  from budget_above [OF assms False] show ?thesis by blast
qed

lemma discount_within:
  assumes "\<exists>p \<in> set plans. t - tol \<le> monthly p \<and> monthly p \<le> t + tol"
  shows "\<exists>best. choose_discount_plan_to_match_price plans t tol = Inr (best, True)
           \<and> best \<in> set plans \<and> t - tol \<le> monthly best \<and> monthly best \<le> t + tol
           \<and> (\<forall>q \<in> set plans. t - tol \<le> monthly q \<and> monthly q \<le> t + tol \<longrightarrow>
                 months best < months q
                 \<or> (months best = months q \<and> \<bar>monthly best - t\<bar> \<le> \<bar>monthly q - t\<bar>))"
proof -
  let ?cs = "filter (\<lambda>p. t - tol \<le> monthly p \<and> monthly p \<le> t + tol) plans"
  let ?k = "\<lambda>p. (months p, \<bar>monthly p - t\<bar>)"
  from assms have ne: "?cs \<noteq> []" by (simp add: filter_empty_conv)
  from ne have "sort_key ?k ?cs \<noteq> []" by (rule sort_key_not_Nil)
  then obtain c rest where srt: "sort_key ?k ?cs = c # rest" by (cases "sort_key ?k ?cs") auto
  from sort_key_head [OF srt] have c: "c \<in> set ?cs" "\<forall>y \<in> set ?cs. ?k c \<le> ?k y" by simp_all
  from ne srt have "choose_discount_plan_to_match_price plans t tol = Inr (c, True)"
    by (simp add: choose_discount_plan_to_match_price_def)
  moreover from c(1) have "c \<in> set plans" "t - tol \<le> monthly c" "monthly c \<le> t + tol"
    by simp_all
  moreover from c(2) have "\<forall>q \<in> set plans. t - tol \<le> monthly q \<and> monthly q \<le> t + tol \<longrightarrow>
      months c < months q \<or> (months c = months q \<and> \<bar>monthly c - t\<bar> \<le> \<bar>monthly q - t\<bar>)"
    by (auto simp: less_eq_prod_def)
  ultimately show ?thesis by blast
qed

lemma discount_outside:
  assumes "plans \<noteq> []"
    and "\<not> (\<exists>p \<in> set plans. t - tol \<le> monthly p \<and> monthly p \<le> t + tol)"
  shows "\<exists>best. choose_discount_plan_to_match_price plans t tol = Inr (best, False)
           \<and> best \<in> set plans
           \<and> (\<forall>q \<in> set plans. \<bar>monthly best - t\<bar> \<le> \<bar>monthly q - t\<bar>)"
proof -
  from assms(2) have emp: "filter (\<lambda>p. t - tol \<le> monthly p \<and> monthly p \<le> t + tol) plans = []"
    by (simp add: filter_empty_conv)
  from py_min_spec [OF assms(1), of "\<lambda>p. \<bar>monthly p - t\<bar>"] obtain b where
    b: "py_min (\<lambda>p. \<bar>monthly p - t\<bar>) plans = Inr b" "b \<in> set plans"
       "\<forall>y \<in> set plans. \<bar>monthly b - t\<bar> \<le> \<bar>monthly y - t\<bar>"
    by blast
  from emp b(1) have "choose_discount_plan_to_match_price plans t tol = Inr (b, False)"
    by (simp add: choose_discount_plan_to_match_price_def)
  with b(2,3) show ?thesis by blast
qed

lemma discount_returns:
  assumes "plans \<noteq> []"
  shows "\<exists>r. choose_discount_plan_to_match_price plans t tol = Inr r"
proof (cases "\<exists>p \<in> set plans. t - tol \<le> monthly p \<and> monthly p \<le> t + tol")
  case True
  from discount_within [OF True] show ?thesis by blast
next
  case False
  from discount_outside [OF assms False] show ?thesis by blast
qed

subsection \<open>The script returns\<close>

text \<open>The commission of a run is the commission block on the run's flags and its
  discount plan.\<close>

lemma run_comm:
  assumes "run i = Inr out"
  shows "comm out =
           commission_block (magnet_count i) (camera_count i) (fire_count i)
             (charged (magnet_count i) (give_magnet i))
             (charged (camera_count i) (give_camera i))
             (charged (fire_count i) (give_fire i))
             (discount_plan out) (miles_driven i) (net_sales_month i)"
  using assms
  by (auto simp: run_def Let_def split: sum.splits prod.splits)

lemma next_with_label_returns:
  assumes "lbl \<in> label ` set plans"
  shows "\<exists>p. next_with_label plans lbl = Inr p \<and> p \<in> set plans \<and> label p = lbl"
proof -
  from assms have "filter (\<lambda>p. label p = lbl) plans \<noteq> []"
    by (auto simp: filter_empty_conv)
  then obtain p rest where f: "filter (\<lambda>p. label p = lbl) plans = p # rest"
    by (cases "filter (\<lambda>p. label p = lbl) plans") auto
  then have "p \<in> set (filter (\<lambda>p. label p = lbl) plans)" by simp
  then have "p \<in> set plans" "label p = lbl" by simp_all
  with f show ?thesis by (simp add: next_with_label_def)
qed

lemma discount_section_returns:
  "\<exists>dp. discount_section price mc cc fc cm ccam cf want tol = Inr dp"
proof (cases "discount_condition mc cc fc cm ccam cf")
  case True
  obtain ps where ps: "compute_plans (real_of_int (financed_discount price mc cc fc cm ccam cf)) = Inr ps"
    and ne: "ps \<noteq> []"
    by (simp add: compute_plans_unfold)
  from discount_returns [OF ne] obtain b w where
    "choose_discount_plan_to_match_price ps want (real_of_int tol) = Inr (b, w)" by fastforce
  with True ps show ?thesis by (simp add: discount_section_def)
next
  case False
  then show ?thesis by (simp add: discount_section_def)
qed

text \<open>For every label of the select box the script runs to its end: none of the
  exceptions of the model is raised.\<close>

lemma run_returns:
  assumes "selected_term_label i \<in> fst ` set PAYMENT_OPTIONS"
  shows "\<exists>out. run i = Inr out"
proof -
  let ?fin = "real_of_int (financed_full (base_price (is_over_70 i)) (magnet_count i)
                 (camera_count i) (fire_count i))"
  obtain ps where ps: "compute_plans ?fin = Inr ps" and ne: "ps \<noteq> []"
    and lbls: "map label ps = map fst PAYMENT_OPTIONS"
    by (simp add: compute_plans_unfold PAYMENT_OPTIONS_def)
  from lbls have "label ` set ps = fst ` set PAYMENT_OPTIONS"
    by (metis list.set_map)
  with assms have "selected_term_label i \<in> label ` set ps" by simp
  from next_with_label_returns [OF this] obtain sel where
    sel: "next_with_label ps (selected_term_label i) = Inr sel" by blast
  from budget_returns [OF ne] obtain b st where
    best: "choose_best_plan_for_budget ps (desired_monthly i) = Inr (b, st)" by fastforce
  from discount_section_returns obtain dp where
    dp: "discount_section (base_price (is_over_70 i)) (magnet_count i) (camera_count i)
           (fire_count i) (charged (magnet_count i) (give_magnet i))
           (charged (camera_count i) (give_camera i)) (charged (fire_count i) (give_fire i))
           (desired_monthly i) (tolerance i) = Inr dp" by blast
  from ps sel best dp show ?thesis by (simp add: run_def Let_def)
qed

subsection \<open>When the discount section runs\<close>

lemma run_discount_plan:
  assumes "run i = Inr out"
  shows "(discount_plan out \<noteq> None) =
           discount_condition (magnet_count i) (camera_count i) (fire_count i)
             (charged (magnet_count i) (give_magnet i))
             (charged (camera_count i) (give_camera i))
             (charged (fire_count i) (give_fire i))"
  using assms
  by (auto simp: run_def Let_def discount_section_def split: sum.splits prod.splits if_splits)

lemma run_has_comp:
  assumes "run i = Inr out"
  shows "has_comp (comm out) =
           ((magnet_count i \<noteq> 0 \<or> camera_count i \<noteq> 0 \<or> fire_count i \<noteq> 0)
            \<and> (\<not> charged (magnet_count i) (give_magnet i)
               \<or> \<not> charged (camera_count i) (give_camera i)
               \<or> \<not> charged (fire_count i) (give_fire i)))"
  using assms
  by (auto simp: run_def Let_def discount_section_def discount_condition_def commission_block_def
      split: sum.splits prod.splits if_splits)

text \<open>With all three extras selected and none given away the commission is not reduced.\<close>

lemma all_selected_billed_no_penalty:
  assumes "0 < magnet_count i" "0 < camera_count i" "0 < fire_count i"
    and "\<not> give_magnet i" "\<not> give_camera i" "\<not> give_fire i"
    and "run i = Inr out"
  shows "\<not> has_comp (comm out) \<and> total_after_comp (comm out) = total_before_comp (comm out)"
  using assms
  by (auto simp: run_def Let_def discount_section_def discount_condition_def commission_block_def
      charged_def split: sum.splits prod.splits if_splits)

text \<open>With some extra selected and another at count 0 the commission is reduced, whatever
  the boxes say: the flag of the extra at count 0 is false.\<close>

lemma zero_count_penalty:
  assumes "magnet_count i \<noteq> 0 \<or> camera_count i \<noteq> 0 \<or> fire_count i \<noteq> 0"
    and "magnet_count i = 0 \<or> camera_count i = 0 \<or> fire_count i = 0"
    and "run i = Inr out"
  shows "has_comp (comm out)"
  using assms unfolding run_has_comp [OF assms(3)] by (auto simp: charged_def)

section \<open>The claims\<close>

text \<open>
  C1. The claim: the 20 percent penalty applies if and only if a selected extra was given
  away or a discount plan was used; in particular, when every extra with a positive count
  is billed, the commission before travel reimbursement is the unreduced sum
  base + 10 percent of the billed extras + 20 percent of the installation.

  The script does not do this. With one magnet, no camera, no fire alarm and no box ticked,
  every selected extra is billed (the charged extras are all the extras), yet the flags of
  the two extras at count 0 are false, the discount section runs, \<^verbatim>\<open>discount_plan\<close> is
  set, and the commission is 2880 instead of 3600.
\<close>

theorem penalty_without_comped_extra:
  "\<exists>out. run (default_inputs\<lparr>magnet_count := 1\<rparr>) = Inr out
     \<and> extras_charged 1 0 0 (charged 1 False) (charged 0 False) (charged 0 False)
         = extras_total_full 1 0 0
     \<and> discount_plan out \<noteq> None
     \<and> has_comp (comm out)
     \<and> total_before_comp (comm out) = 2500 + 0.10 * 1000 + 0.20 * 5000
     \<and> total_before_comp (comm out) = 3600
     \<and> total_after_comp (comm out) = 2880"
  by (simp add: default_inputs_def run_def Let_def compute_plans_unfold next_with_label_def aa_def
      PAYMENT_OPTIONS_def choose_best_plan_for_budget_def py_max_def py_min_def
      discount_section_def discount_condition_def charged_def
      choose_discount_plan_to_match_price_def commission_block_def base_price_def
      financed_full_def financed_discount_def extras_total_full_def extras_charged_def
      BASE_OVER_70_def EXTRA_MAGNET_def EXTRA_CAMERA_def EXTRA_FIRE_def INSTALLATION_COST_def
      BASE_COMMISSION_PER_DEAL_def UPSELL_COMMISSION_RATE_def INSTALL_COMMISSION_RATE_def
      COMPENSATION_PENALTY_RATE_def MILE_COMP_def)

text \<open>
  C2 (as amended). For every non-empty plan list and every budget: if some plan's monthly
  payment is at most the budget, \<^const>\<open>choose_best_plan_for_budget\<close> returns a plan of the
  list whose monthly payment is at most the budget and is the greatest such, with the
  status \<open>within\<close>; otherwise it returns a plan of the list with the least monthly
  payment, with the status \<open>above\<close>.
\<close>

theorem choose_best_plan_for_budget_nonempty:
  assumes "plans \<noteq> []"
  shows "if \<exists>p \<in> set plans. monthly p \<le> t
         then \<exists>best. choose_best_plan_for_budget plans t = Inr (best, ''within'')
                \<and> best \<in> set plans \<and> monthly best \<le> t
                \<and> (\<forall>q \<in> set plans. monthly q \<le> t \<longrightarrow> monthly q \<le> monthly best)
         else \<exists>best. choose_best_plan_for_budget plans t = Inr (best, ''above'')
                \<and> best \<in> set plans
                \<and> (\<forall>q \<in> set plans. monthly best \<le> monthly q)"
proof (cases "\<exists>p \<in> set plans. monthly p \<le> t")
  case True
  with budget_within [OF True] show ?thesis by (simp only: if_True)
next
  case False
  with budget_above [OF assms False] show ?thesis by (simp only: if_False)
qed

theorem choose_best_plan_for_budget_nonempty_witness:
  "choose_best_plan_for_budget
     [\<lparr>label = ''A'', months = 12, monthly = 900, total = 11394\<rparr>,
      \<lparr>label = ''B'', months = 24, monthly = 500, total = 12594\<rparr>] 800
     = Inr (\<lparr>label = ''B'', months = 24, monthly = 500, total = 12594\<rparr>, ''within'')
   \<and> choose_best_plan_for_budget
     [\<lparr>label = ''A'', months = 12, monthly = 900, total = 11394\<rparr>,
      \<lparr>label = ''B'', months = 24, monthly = 500, total = 12594\<rparr>] 100
     = Inr (\<lparr>label = ''B'', months = 24, monthly = 500, total = 12594\<rparr>, ''above'')"
  using choose_best_plan_for_budget_nonempty
          [of "[\<lparr>label = ''A'', months = 12, monthly = 900, total = 11394\<rparr>,
                \<lparr>label = ''B'', months = 24, monthly = 500, total = 12594\<rparr>]" 800]
        choose_best_plan_for_budget_nonempty
          [of "[\<lparr>label = ''A'', months = 12, monthly = 900, total = 11394\<rparr>,
                \<lparr>label = ''B'', months = 24, monthly = 500, total = 12594\<rparr>]" 100]
  by (simp add: choose_best_plan_for_budget_def py_max_def py_min_def)

text \<open>The claim as stated, for every plan list, fails on the empty list: no plan is within
  the budget, and \<^verbatim>\<open>min\<close> of the empty list raises \<^verbatim>\<open>ValueError\<close>.\<close>

theorem choose_best_plan_for_budget_empty:
  "choose_best_plan_for_budget [] 800 = Inl ValueError"
  by (simp add: choose_best_plan_for_budget_def py_min_def)

text \<open>
  C3 (as amended). For every plan list, target and tolerance: if some plan's monthly
  payment lies in [target - tolerance, target + tolerance],
  \<^const>\<open>choose_discount_plan_to_match_price\<close> returns, with the flag true, a plan of that
  band whose term is the shortest of the band and, among the plans of the band with that
  term, whose monthly payment is closest to the target; if no plan lies in the band and
  the list is not empty, it returns, with the flag false, a plan whose monthly payment is
  closest to the target among all plans.
\<close>

theorem choose_discount_plan_to_match_price_correct:
  "if \<exists>p \<in> set plans. t - tol \<le> monthly p \<and> monthly p \<le> t + tol
   then \<exists>best. choose_discount_plan_to_match_price plans t tol = Inr (best, True)
          \<and> best \<in> set plans \<and> t - tol \<le> monthly best \<and> monthly best \<le> t + tol
          \<and> (\<forall>q \<in> set plans. t - tol \<le> monthly q \<and> monthly q \<le> t + tol \<longrightarrow>
                months best < months q
                \<or> (months best = months q \<and> \<bar>monthly best - t\<bar> \<le> \<bar>monthly q - t\<bar>))
   else plans \<noteq> [] \<longrightarrow>
        (\<exists>best. choose_discount_plan_to_match_price plans t tol = Inr (best, False)
          \<and> best \<in> set plans
          \<and> (\<forall>q \<in> set plans. \<bar>monthly best - t\<bar> \<le> \<bar>monthly q - t\<bar>))"
proof (cases "\<exists>p \<in> set plans. t - tol \<le> monthly p \<and> monthly p \<le> t + tol")
  case True
  with discount_within [OF True] show ?thesis by (simp only: if_True)
next
  case False
  have "plans \<noteq> [] \<longrightarrow>
        (\<exists>best. choose_discount_plan_to_match_price plans t tol = Inr (best, False)
          \<and> best \<in> set plans
          \<and> (\<forall>q \<in> set plans. \<bar>monthly best - t\<bar> \<le> \<bar>monthly q - t\<bar>))"
    using discount_outside [OF _ False] by blast
  with False show ?thesis by (simp only: if_False)
qed

theorem choose_discount_plan_to_match_price_correct_witness:
  "choose_discount_plan_to_match_price
     [\<lparr>label = ''A'', months = 24, monthly = 810, total = 20034\<rparr>,
      \<lparr>label = ''B'', months = 12, monthly = 840, total = 10674\<rparr>] 800 50
     = Inr (\<lparr>label = ''B'', months = 12, monthly = 840, total = 10674\<rparr>, True)
   \<and> choose_discount_plan_to_match_price
     [\<lparr>label = ''A'', months = 24, monthly = 810, total = 20034\<rparr>,
      \<lparr>label = ''B'', months = 12, monthly = 840, total = 10674\<rparr>] 800 5
     = Inr (\<lparr>label = ''A'', months = 24, monthly = 810, total = 20034\<rparr>, False)"
  using choose_discount_plan_to_match_price_correct
          [of "[\<lparr>label = ''A'', months = 24, monthly = 810, total = 20034\<rparr>,
                \<lparr>label = ''B'', months = 12, monthly = 840, total = 10674\<rparr>]" 800 50]
        choose_discount_plan_to_match_price_correct
          [of "[\<lparr>label = ''A'', months = 24, monthly = 810, total = 20034\<rparr>,
                \<lparr>label = ''B'', months = 12, monthly = 840, total = 10674\<rparr>]" 800 5]
  by (simp add: choose_discount_plan_to_match_price_def py_min_def less_eq_prod_def)

text \<open>The claim as stated, for every plan list, fails on the empty list: no plan is in the
  band, and \<^verbatim>\<open>min\<close> of the empty list raises \<^verbatim>\<open>ValueError\<close>.\<close>

theorem choose_discount_plan_to_match_price_empty:
  "choose_discount_plan_to_match_price [] 800 50 = Inl ValueError"
  by (simp add: choose_discount_plan_to_match_price_def py_min_def)

text \<open>
  C4. For every input of the commission block, the total compensation for the deal is
  (2500 + 0.10 * billed extras + 0.20 * 5000), multiplied by 0.8 exactly when the penalty
  condition \<^verbatim>\<open>has_comp\<close> holds, plus the miles driven times 25.50; the travel
  reimbursement is added after the penalty and is the same whatever the extras, the flags
  and the discount plan are.
\<close>

theorem commission_total:
  "total_incl_miles (commission_block m c f cm cc cf dp miles ns) =
     (2500 + 0.10 * real_of_int (extras_charged m c f cm cc cf) + 0.20 * 5000)
       * (if has_comp (commission_block m c f cm cc cf dp miles ns) then 0.8 else 1)
     + miles * 25.50
   \<and> has_comp (commission_block m c f cm cc cf dp miles ns) =
       ((m \<noteq> 0 \<and> \<not> cm) \<or> (c \<noteq> 0 \<and> \<not> cc) \<or> (f \<noteq> 0 \<and> \<not> cf) \<or> dp \<noteq> None)
   \<and> mile_comp_total (commission_block m c f cm cc cf dp miles ns) = miles * 25.50
   \<and> total_incl_miles (commission_block m c f cm cc cf dp miles ns)
       = total_after_comp (commission_block m c f cm cc cf dp miles ns) + miles * 25.50
   \<and> mile_comp_total (commission_block m c f cm cc cf dp miles ns)
       = mile_comp_total (commission_block m' c' f' cm' cc' cf' dp' miles ns')"
  by (simp add: commission_block_def Let_def BASE_COMMISSION_PER_DEAL_def
      UPSELL_COMMISSION_RATE_def INSTALL_COMMISSION_RATE_def INSTALLATION_COST_def
      COMPENSATION_PENALTY_RATE_def MILE_COMP_def)

text \<open>Two magnets and ten miles: given away, (2500 + 0 + 1000) * 0.8 + 255; billed,
  2500 + 200 + 1000 + 255.\<close>

theorem commission_total_witness:
  "total_incl_miles (commission_block 2 0 0 False False False None 10 0) = 3055
   \<and> total_incl_miles (commission_block 2 0 0 True False False None 10 0) = 3955"
  using commission_total [of 2 0 0 False False False None 10 0]
        commission_total [of 2 0 0 True False False None 10 0]
  by (simp add: extras_charged_def EXTRA_MAGNET_def)

text \<open>
  C5. For every financed amount (in particular every amount at least 0),
  \<^const>\<open>compute_plans\<close> returns one plan per payment option, and every plan it returns has
  monthly = financed amount / term + 49 and total = monthly * term + 594.
\<close>

theorem compute_plans_formula:
  "\<exists>ps. compute_plans a = Inr ps
     \<and> map (\<lambda>p. (label p, months p)) ps = PAYMENT_OPTIONS
     \<and> (\<forall>p \<in> set ps.
           monthly p = a / real_of_int (months p) + 49
           \<and> total p = monthly p * real_of_int (months p) + 594
           \<and> monthly p = a / real_of_int (months p) + real_of_int ADMIN_MONTHLY
           \<and> total p = monthly p * real_of_int (months p) + real_of_int START_FEE)"
  by (simp add: compute_plans_unfold PAYMENT_OPTIONS_def ADMIN_MONTHLY_def START_FEE_def)

theorem compute_plans_formula_witness:
  "\<exists>ps. compute_plans 1200 = Inr ps \<and> length ps = 7
     \<and> monthly (ps ! 2) = 1200 / 24 + 49 \<and> monthly (ps ! 2) = 99
     \<and> total (ps ! 2) = 99 * 24 + 594"
  using compute_plans_formula [of 1200] by (simp add: compute_plans_unfold)

text \<open>
  C6. \<^const>\<open>bonus_for_net_sales\<close> gives the bonus of the highest tier whose threshold the
  net-sales count reaches, and 0 below the first threshold: 0 for 9, 5000 for 10, 40000
  for 49, 50000 for 50. Every threshold is inclusive (the tier's bonus is paid at the
  threshold and a smaller one just below it), the bonus of every reached tier is at most
  the bonus paid, and the bonus paid is the bonus of one reached tier (tiers do not add up).
\<close>

theorem bonus_for_net_sales_tiers:
  "bonus_for_net_sales 9 = 0 \<and> bonus_for_net_sales 10 = 5000
   \<and> bonus_for_net_sales 49 = 40000 \<and> bonus_for_net_sales 50 = 50000
   \<and> (\<forall>(t, b) \<in> set [(10, 5000), (15, 10000), (20, 15000), (30, 30000), (40, 40000), (50, 50000)].
         bonus_for_net_sales t = b \<and> bonus_for_net_sales (t - 1) < b
         \<and> (t \<le> n \<longrightarrow> b \<le> bonus_for_net_sales n))
   \<and> (n < 10 \<and> bonus_for_net_sales n = 0
       \<or> (\<exists>(t, b) \<in> set [(10, 5000), (15, 10000), (20, 15000), (30, 30000), (40, 40000), (50, 50000)].
             t \<le> n \<and> bonus_for_net_sales n = b))"
  by (simp add: bonus_for_net_sales_def)

theorem bonus_for_net_sales_tiers_witness:
  "(40::int) \<le> 49 \<and> (40000::int) \<le> bonus_for_net_sales 49
   \<and> bonus_for_net_sales 40 = 40000 \<and> bonus_for_net_sales 39 < 40000"
  using bonus_for_net_sales_tiers [of 49] by simp

text \<open>
  C7. For the financed amount 36990 the 12-month plan of \<^const>\<open>compute_plans\<close> has
  monthly = 36990 / 12 + 49 = 3131.50 and total = 3131.50 * 12 + 594 = 38172.00.
\<close>

theorem compute_plans_example:
  "\<exists>ps. compute_plans 36990 = Inr ps
     \<and> next_with_label ps (''12 m'' @ aa @ ''nader'') =
         Inr \<lparr>label = ''12 m'' @ aa @ ''nader'', months = 12,
              monthly = 3131.50, total = 38172.00\<rparr>
     \<and> [p \<leftarrow> ps. months p = 12] =
         [\<lparr>label = ''12 m'' @ aa @ ''nader'', months = 12,
           monthly = 36990 / 12 + 49, total = 3131.50 * 12 + 594\<rparr>]"
  by (simp add: compute_plans_unfold next_with_label_def aa_def)

text \<open>
  C8. For all extras counts at least 0 and all flags, the financed amount of the discount
  offer is at most that of the standard offer.
\<close>

theorem financed_discount_le_full:
  assumes "0 \<le> magnets" and "0 \<le> cameras" and "0 \<le> fires"
  shows "financed_discount price magnets cameras fires cm cc cf
           \<le> financed_full price magnets cameras fires"
  using assms
  by (simp add: financed_discount_def financed_full_def extras_charged_def
      extras_total_full_def EXTRA_MAGNET_def EXTRA_CAMERA_def EXTRA_FIRE_def)

theorem financed_discount_le_full_witness:
  "financed_discount 30990 1 2 0 True False False = 36990
   \<and> financed_full 30990 1 2 0 = 41390"
  using financed_discount_le_full [of 1 2 0 30990 True False False]
  by (simp add: financed_discount_def financed_full_def extras_charged_def
      extras_total_full_def EXTRA_MAGNET_def EXTRA_CAMERA_def EXTRA_FIRE_def
      INSTALLATION_COST_def)

text \<open>
  C9. Every term of the payment options is strictly positive; so for every financed
  amount \<^const>\<open>compute_plans\<close> returns a list of plans (no division by zero), and on that
  list both matchers return a result, for every target and tolerance.
\<close>

theorem plan_engine_total:
  "(\<forall>(l, m) \<in> set PAYMENT_OPTIONS. 0 < m)
   \<and> (\<exists>ps. compute_plans a = Inr ps
         \<and> length ps = length PAYMENT_OPTIONS
         \<and> (\<exists>r. choose_best_plan_for_budget ps t = Inr r)
         \<and> (\<exists>r. choose_discount_plan_to_match_price ps t tol = Inr r))"
proof -
  have pos: "\<forall>(l, m) \<in> set PAYMENT_OPTIONS. 0 < m"
    by (simp add: PAYMENT_OPTIONS_def)
  then have "\<forall>(l, m) \<in> set PAYMENT_OPTIONS. m \<noteq> 0" by auto
  from compute_plans_loop_returns [OF this, of a "[]"]
  obtain ps where ps: "compute_plans a = Inr ps"
    unfolding compute_plans_def by blast
  with compute_plans_unfold [of a] have len: "length ps = length PAYMENT_OPTIONS"
    by (auto simp: PAYMENT_OPTIONS_def)
  then have ne: "ps \<noteq> []" by (auto simp: PAYMENT_OPTIONS_def)
  from budget_returns [OF ne] discount_returns [OF ne] pos ps len show ?thesis by blast
qed

theorem plan_engine_total_witness:
  "(''12 m'' @ aa @ ''nader'', 12) \<in> set PAYMENT_OPTIONS \<and> (0::int) < 12
   \<and> (\<exists>ps. compute_plans 36990 = Inr ps
         \<and> (\<exists>r. choose_best_plan_for_budget ps 800 = Inr r)
         \<and> (\<exists>r. choose_discount_plan_to_match_price ps 800 50 = Inr r))"
  using plan_engine_total [of 36990 800 50] by (auto simp: PAYMENT_OPTIONS_def)



end
